theory Spec2Isabelle
  imports Main
begin

section \<open>Data model of \<open>src/App.jsx\<close>\<close>

text \<open>
  A card is the object literal built by \<open>parseTxtFile\<close> and \<open>handleManualSubmit\<close>:
  \<open>{ id, words, language, transmitted, markedWords }\<close>. The handlers read
  \<open>card.markedWords || []\<close>, so the field may be absent: it is an option here
  (\<open>None\<close> is \<open>undefined\<close>). Strings are lists of 8-bit characters, read as the
  code units below 256 of the JavaScript string.
\<close>

record card =
  card_id :: string
  words :: "string list"
  language :: string
  transmitted :: bool
  markedWords :: "string list option"

text \<open>The argument of \<open>JSON.stringify\<close> in \<open>socket.send(JSON.stringify(...))\<close>.\<close>

datatype json = JString string | JArray "json list" | JObject "(string \<times> json) list"

text \<open>\<open>WebSocket.readyState\<close>; \<open>socketRef.current\<close> is \<open>null\<close> before \<open>setupWebSocket\<close>.\<close>

datatype readyState = CONNECTING | OPEN | CLOSING | CLOSED

text \<open>
  The inbound messages, by their \<open>type\<close> field, with the fields the handler reads.
  A field the handler tests for presence is an option. The selection code of the
  \<open>word_selected\<close> branch reads \<open>data.language\<close>, which is the third field here.
\<close>

datatype message =
    Player_count int
  | Game_started
  | Round_start string
  | Word_selected string "string list option" "string option"
  | Round_end "string list option" string
  | Game_end "string list option"
  | Unrecognized string

text \<open>
  The component state: one field per \<open>useState\<close> of \<open>App\<close>, the socket of
  \<open>socketRef\<close>, and three fields that make the effects of the code observable:
  \<open>timers\<close> holds, for every pending \<open>setTimeout(..., 100)\<close> of \<open>transmitNextCard\<close>,
  the array \<open>updatedCards\<close> its callback has captured; \<open>reads\<close> holds, for every file
  read that \<open>handleFileUpload\<close> has started and that has not ended, the array
  \<open>bingoCards\<close> that its \<open>reader.onload\<close> has captured; and \<open>sent\<close> is the sequence
  of objects that \<open>sendBingoCard\<close> has serialised and sent, oldest first.
\<close>

record app =
  socketRef :: "readyState option"
  socketReady :: bool
  showStartModal :: bool
  bingoCards :: "card list"
  selectedCardIndex :: nat
  currentWord :: string
  showLoadModal :: bool
  manualInput :: string
  manualCardId :: string
  isTransmitting :: bool
  userName :: string
  currentLanguage :: string
  playerCount :: int
  gameStarted :: bool
  showWinnersModal :: bool
  winners :: "string list option"
  showRoundWinnersModal :: bool
  roundWinners :: "string list option"
  roundLanguage :: string
  timers :: "card list list"
  reads :: "card list list"
  sent :: "json list"

definition initial :: app where
  "initial = \<lparr> socketRef = None, socketReady = False, showStartModal = True,
     bingoCards = [], selectedCardIndex = 0, currentWord = [], showLoadModal = False,
     manualInput = [], manualCardId = [], isTransmitting = False, userName = [],
     currentLanguage = [], playerCount = 0, gameStarted = False,
     showWinnersModal = False, winners = None, showRoundWinnersModal = False,
     roundWinners = None, roundLanguage = [], timers = [], reads = [], sent = [] \<rparr>"

section \<open>The inbound message handler\<close>

text \<open>\<open>card.markedWords || []\<close>\<close>

definition marked :: "card \<Rightarrow> string list" where
  "marked c = (case markedWords c of None \<Rightarrow> [] | Some ws \<Rightarrow> ws)"

text \<open>\<open>card.markedWords ? card.markedWords.length : 0\<close>\<close>

definition markedCount :: "card \<Rightarrow> nat" where
  "markedCount c = (case markedWords c of None \<Rightarrow> 0 | Some ws \<Rightarrow> length ws)"

text \<open>The function mapped over \<open>prevCards\<close> in the \<open>word_selected\<close> branch.\<close>

definition markCard :: "string \<Rightarrow> string list option \<Rightarrow> card \<Rightarrow> card" where
  "markCard word card_ids c =
     (if (case card_ids of None \<Rightarrow> False | Some ids \<Rightarrow> card_id c \<in> set ids)
         \<and> word \<in> set (words c)
      then (if word \<notin> set (marked c)
            then c\<lparr>markedWords := Some (marked c @ [word])\<rparr>
            else c)
      else c)"

text \<open>
  The four variables of the \<open>forEach\<close> in the selection code, and its loop body at
  one card and index.
\<close>

record best =
  maxMarked :: nat
  bestIndex :: nat
  maxMarkedForLanguage :: nat
  bestIndexForLanguage :: nat

definition selectStep :: "string option \<Rightarrow> card \<Rightarrow> nat \<Rightarrow> best \<Rightarrow> best" where
  "selectStep lang c index b =
     (let b1 = (if markedCount c > maxMarked b
                then b\<lparr>maxMarked := markedCount c, bestIndex := index\<rparr> else b)
      in if Some (language c) = lang \<and> markedCount c > maxMarkedForLanguage b1
         then b1\<lparr>maxMarkedForLanguage := markedCount c, bestIndexForLanguage := index\<rparr>
         else b1)"

fun forEachSelect :: "string option \<Rightarrow> card list \<Rightarrow> nat \<Rightarrow> best \<Rightarrow> best" where
  "forEachSelect lang [] index b = b"
| "forEachSelect lang (c # cs) index b =
     forEachSelect lang cs (Suc index) (selectStep lang c index b)"

text \<open>
  The value that the \<open>setTimeout(..., 0)\<close> callback of the \<open>word_selected\<close> branch gives
  to \<open>setSelectedCardIndex\<close>. The callback reads only the array \<open>updated\<close> and the
  message \<open>data\<close> that it has captured.
\<close>

definition autoSelect :: "string option \<Rightarrow> card list \<Rightarrow> nat" where
  "autoSelect lang updated =
     (let b = forEachSelect lang updated 0
                \<lparr>maxMarked = 0, bestIndex = 0, maxMarkedForLanguage = 0,
                 bestIndexForLanguage = 0\<rparr>
      in if maxMarkedForLanguage b > 0 then bestIndexForLanguage b else bestIndex b)"

text \<open>
  \<open>handleWebSocketMessage\<close>. In the \<open>word_selected\<close> branch the selection callback is
  run with the handler: what it stores is fixed when it is scheduled.
\<close>

fun handleWebSocketMessage :: "message \<Rightarrow> app \<Rightarrow> app" where
  "handleWebSocketMessage (Player_count n) st = st\<lparr>playerCount := n\<rparr>"
| "handleWebSocketMessage Game_started st = st\<lparr>gameStarted := True\<rparr>"
| "handleWebSocketMessage (Round_start lang) st = st\<lparr>currentLanguage := lang\<rparr>"
| "handleWebSocketMessage (Word_selected word card_ids lang) st =
     (let updated = map (markCard word card_ids) (bingoCards st)
      in st\<lparr>currentWord := word, bingoCards := updated,
            selectedCardIndex := autoSelect lang updated\<rparr>)"
| "handleWebSocketMessage (Round_end ws lang) st =
     (let st1 = st\<lparr>currentWord := []\<rparr>;
          st2 = (case ws of
                   None \<Rightarrow> st1
                 | Some l \<Rightarrow> if length l > 0
                     then st1\<lparr>roundWinners := Some l, roundLanguage := lang,
                              showRoundWinnersModal := True\<rparr>
                     else st1)
      in st2\<lparr>currentLanguage := []\<rparr>)"
| "handleWebSocketMessage (Game_end ws) st = st\<lparr>winners := ws, showWinnersModal := True\<rparr>"
| "handleWebSocketMessage (Unrecognized t) st = st"

section \<open>Creating cards\<close>

text \<open>\<open>LANGUAGE_CONFIGS\<close>, in the order of \<open>Object.entries\<close>, and \<open>detectLanguage\<close>.\<close>

record config =
  rows :: nat
  cols :: nat
  total_words :: nat

definition LANGUAGE_CONFIGS :: "(string \<times> config) list" where
  "LANGUAGE_CONFIGS =
     [(''spanish'', \<lparr>rows = 4, cols = 6, total_words = 24\<rparr>),
      (''english'', \<lparr>rows = 2, cols = 7, total_words = 14\<rparr>),
      (''portuguese'', \<lparr>rows = 5, cols = 4, total_words = 20\<rparr>),
      (''dutch'', \<lparr>rows = 2, cols = 5, total_words = 10\<rparr>)]"

definition detectLanguage :: "nat \<Rightarrow> string" where
  "detectLanguage wordCount =
     (case find (\<lambda>(lang, config). total_words config = wordCount) LANGUAGE_CONFIGS of
        Some (lang, config) \<Rightarrow> lang
      | None \<Rightarrow> ''spanish'')"

text \<open>
  The white space of \<open>String.prototype.trim\<close> and of \<open>\s\<close> among the code units below
  256: tab, line feed, vertical tab, form feed, carriage return, space and no-break space.
\<close>

definition is_space :: "char \<Rightarrow> bool" where
  "is_space c = (c \<in> set [CHR 0x09, CHR 0x0A, CHR 0x0B, CHR 0x0C, CHR 0x0D, CHR 0x20, CHR 0xA0])"

definition trim :: "string \<Rightarrow> string" where
  "trim s = rev (dropWhile is_space (rev (dropWhile is_space s)))"

text \<open>\<open>s.split(sep)\<close> for a separator of one character: \<open>.split(sep)\<close> is \<open>[]\<close>.\<close>

fun split_on :: "char \<Rightarrow> string \<Rightarrow> string list" where
  "split_on sep [] = [[]]"
| "split_on sep (c # cs) =
     (if c = sep then [] # split_on sep cs
      else (case split_on sep cs of
              [] \<Rightarrow> [[c]]
            | x # xs \<Rightarrow> (c # x) # xs))"

text \<open>
  \<open>s.split(/\s+/)\<close>: the pieces between the maximal runs of white space, with an
  empty piece before a leading run and after a trailing one.
\<close>

function split_ws :: "string \<Rightarrow> string list" where
  "split_ws [] = [[]]"
| "split_ws (c # cs) =
     (if is_space c then [] # split_ws (dropWhile is_space cs)
      else (case split_ws cs of
              [] \<Rightarrow> [[c]]
            | x # xs \<Rightarrow> (c # x) # xs))"
  by pat_completeness auto
termination
  by (relation "measure length") (auto simp: le_imp_less_Suc length_dropWhile_le)

text \<open>
  The body of the \<open>for\<close> loop of \<open>parseTxtFile\<close> at one line: the card it pushes, or
  nothing where it says \<open>continue\<close>.
\<close>

definition parseLine :: "string \<Rightarrow> card list" where
  "parseLine line =
     (let parts = split_ws (trim line)
      in if length parts < 2 then []
         else (let ident = parts ! 0; ws = drop 1 parts
               in if length ws = 0 then []
                  else [\<lparr>card_id = ident, words = ws, language = detectLanguage (length ws),
                          transmitted = False, markedWords = Some []\<rparr>]))"

definition parseTxtFile :: "string \<Rightarrow> card list" where
  "parseTxtFile content =
     (let lines = filter (\<lambda>line. trim line \<noteq> []) (split_on (CHR 0x0A) content)
      in if length lines = 0 then [] else concat (map parseLine lines))"

text \<open>
  \<open>handleFileUpload\<close> with a file: it starts the read. The \<open>reader.onload\<close> that it
  sets up refers to the array \<open>bingoCards\<close> of the render in which the file was
  chosen, which is recorded here. The read ends later, after any number of other
  events.
\<close>

definition handleFileUpload :: "app \<Rightarrow> app" where
  "handleFileUpload st = st\<lparr>reads := reads st @ [bingoCards st]\<rparr>"

text \<open>
  \<open>reader.onload\<close> of \<open>handleFileUpload\<close>, with the array \<open>bingoCards\<close> of its
  closure and the text of the file: \<open>setBingoCards([...bingoCards, ...newCards])\<close>
  replaces the store by the captured array followed by the new cards.
\<close>

definition onload :: "card list \<Rightarrow> string \<Rightarrow> app \<Rightarrow> app" where
  "onload bingoCards_seen content st =
     (let newCards = parseTxtFile content
      in if length newCards > 0
         then st\<lparr>bingoCards := bingoCards_seen @ newCards, showLoadModal := False\<rparr>
         else st)"

text \<open>
  \<open>handleManualSubmit\<close> runs in the click on the button, with the fields of the form
  and the store of the current render.
\<close>

definition handleManualSubmit :: "app \<Rightarrow> app" where
  "handleManualSubmit st =
     (if trim (manualCardId st) = [] \<or> trim (manualInput st) = [] then st
      else (let ws = filter (\<lambda>word. word \<noteq> []) (map trim (split_on (CHR 0x0A) (manualInput st)))
            in if length ws = 0 then st
               else (let c = \<lparr>card_id = trim (manualCardId st), words = ws,
                               language = detectLanguage (length ws),
                               transmitted = False, markedWords = Some []\<rparr>
                     in st\<lparr>bingoCards := bingoCards st @ [c], manualInput := [],
                           manualCardId := [], showLoadModal := False\<rparr>)))"

section \<open>The transmission of cards\<close>

text \<open>The object that \<open>sendBingoCard\<close> serialises.\<close>

definition bingoCardMessage :: "card \<Rightarrow> json" where
  "bingoCardMessage c =
     JObject [(''type'', JString ''bingo_card''),
              (''card'', JObject [(''id'', JString (card_id c)),
                                  (''words'', JArray (map JString (words c))),
                                  (''language'', JString (language c))])]"

definition sendBingoCard :: "card \<Rightarrow> app \<Rightarrow> app" where
  "sendBingoCard c st =
     (if socketRef st = Some OPEN then st\<lparr>sent := sent st @ [bingoCardMessage c]\<rparr> else st)"

text \<open>\<open>Array.prototype.findIndex\<close>; \<open>None\<close> is its result \<open>-1\<close>.\<close>

fun findIndex :: "('a \<Rightarrow> bool) \<Rightarrow> 'a list \<Rightarrow> nat option" where
  "findIndex P [] = None"
| "findIndex P (x # xs) = (if P x then Some 0 else map_option Suc (findIndex P xs))"

text \<open>
  \<open>transmitNextCard\<close>, that is the function it gives to \<open>setBingoCards\<close>, run on the
  cards of the state. The \<open>map\<close> that replaces the card at \<open>untransmittedIndex\<close> is a
  list update; the callback given to \<open>setTimeout\<close> is recorded with \<open>updatedCards\<close>.
\<close>

definition transmitNextCard :: "app \<Rightarrow> app" where
  "transmitNextCard st =
     (let prevCards = bingoCards st
      in case findIndex (\<lambda>c. \<not> transmitted c) prevCards of
           None \<Rightarrow> st\<lparr>isTransmitting := False\<rparr>
         | Some untransmittedIndex \<Rightarrow>
             (let c = prevCards ! untransmittedIndex;
                  st1 = sendBingoCard c st;
                  updatedCards = prevCards[untransmittedIndex := c\<lparr>transmitted := True\<rparr>]
              in st1\<lparr>timers := timers st1 @ [updatedCards], bingoCards := updatedCards\<rparr>))"

text \<open>The callback of \<open>setTimeout(..., 100)\<close>, with the \<open>updatedCards\<close> it has captured.\<close>

definition timerCallback :: "card list \<Rightarrow> app \<Rightarrow> app" where
  "timerCallback updatedCards st =
     (let hasMoreUntransmitted = list_ex (\<lambda>c. \<not> transmitted c) updatedCards
      in if hasMoreUntransmitted then transmitNextCard st else st\<lparr>isTransmitting := False\<rparr>)"

text \<open>The effect with the dependency \<open>[bingoCards.length]\<close>.\<close>

definition transmissionEffect :: "app \<Rightarrow> app" where
  "transmissionEffect st =
     (if length (bingoCards st) = 0 then st
      else (let hasUntransmitted = list_ex (\<lambda>c. \<not> transmitted c) (bingoCards st)
            in if hasUntransmitted \<and> \<not> isTransmitting st
               then transmitNextCard (st\<lparr>isTransmitting := True\<rparr>)
               else st))"

text \<open>
  A render after a handler has changed the state from \<open>old\<close> to \<open>new\<close>: the effect runs
  when the number of cards has changed.
\<close>

definition render :: "app \<Rightarrow> app \<Rightarrow> app" where
  "render old new =
     (if length (bingoCards new) \<noteq> length (bingoCards old) then transmissionEffect new
      else new)"

section \<open>The component as a transition system\<close>

text \<open>
  Every handler runs to its end, with the render and the effect that follow it,
  before the next one starts. An event is the choice of a file, the end of one of
  the file reads in progress (the \<open>n\<close>-th of \<open>reads\<close>, with the text read), a change
  of one of the two fields of the manual form, a click on its button or on a card
  of the list, an inbound message that \<open>JSON.parse\<close> accepted, the oldest pending
  timer of \<open>transmitNextCard\<close>, or a change of the socket made by its environment.
  Registration, the \<open>play\<close> message and the page reload on close are outside this
  model.
\<close>

datatype event =
    FileChosen
  | FileLoaded nat string
  | TypeCardId string
  | TypeWords string
  | ManualSubmit
  | ClickCard nat
  | Message message
  | TimerFires
  | Socket "readyState option"

fun step :: "event \<Rightarrow> app \<Rightarrow> app" where
  "step FileChosen st = handleFileUpload st"
| "step (FileLoaded n content) st =
     (if n < length (reads st)
      then render st (onload (reads st ! n) content
                        (st\<lparr>reads := take n (reads st) @ drop (Suc n) (reads st)\<rparr>))
      else st)"
| "step (TypeCardId s) st = st\<lparr>manualCardId := s\<rparr>"
| "step (TypeWords s) st = st\<lparr>manualInput := s\<rparr>"
| "step ManualSubmit st = render st (handleManualSubmit st)"
| "step (ClickCard index) st = st\<lparr>selectedCardIndex := index\<rparr>"
| "step (Message m) st = render st (handleWebSocketMessage m st)"
| "step TimerFires st =
     (case timers st of
        [] \<Rightarrow> st
      | updatedCards # rest \<Rightarrow> timerCallback updatedCards (st\<lparr>timers := rest\<rparr>))"
| "step (Socket r) st = st\<lparr>socketRef := r\<rparr>"

fun run :: "event list \<Rightarrow> app \<Rightarrow> app" where
  "run [] st = st"
| "run (e # es) st = run es (step e st)"

section \<open>Predicates on states and runs\<close>

text \<open>
  Every marked word of a card is one of its words, for the cards of the store and
  for the cards of the stores that the file reads in progress have captured.
\<close>

definition markedWithinWords :: "app \<Rightarrow> bool" where
  "markedWithinWords st =
     (list_all (\<lambda>c. set (marked c) \<subseteq> set (words c)) (bingoCards st)
      \<and> list_all (list_all (\<lambda>c. set (marked c) \<subseteq> set (words c))) (reads st))"

text \<open>The value of a field of a JSON object, if it has the field.\<close>

fun field :: "json \<Rightarrow> string \<Rightarrow> json option" where
  "field (JObject kvs) k = map_of kvs k"
| "field (JString s) k = None"
| "field (JArray xs) k = None"

text \<open>The ids of the cards in the messages sent, oldest first.\<close>

definition sent_ids :: "app \<Rightarrow> json option list" where
  "sent_ids st =
     map (\<lambda>f. case field f ''card'' of None \<Rightarrow> None | Some c \<Rightarrow> field c ''id'') (sent st)"

text \<open>A file of three lines, for the cards \<open>a\<close>, \<open>b\<close> and \<open>c\<close> of one word each.\<close>

definition three_cards :: string where
  "three_cards = ''a SOL'' @ [CHR 0x0A] @ ''b LUNA'' @ [CHR 0x0A] @ ''c MAR''"

text \<open>A file of two lines, for the cards \<open>a\<close> and \<open>b\<close> of one word each.\<close>

definition first_two_cards :: string where
  "first_two_cards = ''a SOL'' @ [CHR 0x0A] @ ''b LUNA''"

text \<open>A file of two cards with the word \<open>HOND\<close>: \<open>a\<close> of one word, \<open>b\<close> of ten words.\<close>

definition two_cards :: string where
  "two_cards = ''a HOND'' @ [CHR 0x0A] @ ''b HOND KAT VIS BOOM HUIS MAAN ZON ZEE WEG DAG''"

text \<open>
  The selection loop for one pair of its variables: the greatest count so far and
  the index where it was first reached, among the cards that satisfy \<open>P\<close>.
\<close>

fun firstMax :: "(card \<Rightarrow> bool) \<Rightarrow> card list \<Rightarrow> nat \<Rightarrow> nat \<Rightarrow> nat \<Rightarrow> nat \<times> nat" where
  "firstMax P [] index m b = (m, b)"
| "firstMax P (c # cs) index m b =
     (if P c \<and> markedCount c > m then firstMax P cs (Suc index) (markedCount c) index
      else firstMax P cs (Suc index) m b)"

text \<open>
  \<open>k\<close> is the lowest index of a card with the greatest number of marked words among
  the cards of \<open>cs\<close> that satisfy \<open>P\<close>.
\<close>

definition lowestMax :: "(card \<Rightarrow> bool) \<Rightarrow> card list \<Rightarrow> nat \<Rightarrow> bool" where
  "lowestMax P cs k =
     (k < length cs \<and> P (cs ! k)
      \<and> list_all (\<lambda>j. P (cs ! j) \<longrightarrow> markedCount (cs ! j) \<le> markedCount (cs ! k)) [0..<length cs]
      \<and> list_all (\<lambda>j. P (cs ! j) \<longrightarrow> markedCount (cs ! j) < markedCount (cs ! k)) [0..<k])"

section \<open>Properties of the message handler\<close>

lemma marked_markCard:
  "marked (markCard word card_ids c) =
     (if (\<exists>ids. card_ids = Some ids \<and> card_id c \<in> set ids) \<and> word \<in> set (words c)
         \<and> word \<notin> set (marked c)
      then marked c @ [word] else marked c)"
  by (simp add: markCard_def marked_def split: option.splits)

lemma markCard_unchanged:
  "\<not> ((\<exists>ids. card_ids = Some ids \<and> card_id c \<in> set ids) \<and> word \<in> set (words c)
       \<and> word \<notin> set (marked c)) \<Longrightarrow> markCard word card_ids c = c"
  by (auto simp: markCard_def split: option.splits)

lemma markCard_changed:
  "(\<exists>ids. card_ids = Some ids \<and> card_id c \<in> set ids) \<Longrightarrow> word \<in> set (words c) \<Longrightarrow>
   word \<notin> set (marked c) \<Longrightarrow>
   markCard word card_ids c = c\<lparr>markedWords := Some (marked c @ [word])\<rparr>"
  by (auto simp: markCard_def)

lemma markCard_idem: "markCard word card_ids (markCard word card_ids c) = markCard word card_ids c"
  by (auto simp: markCard_def marked_def split: option.splits)

text \<open>
  C9. A \<open>round_start\<close> message stores its language in \<open>currentLanguage\<close> and changes no
  other field of the state: \<open>currentWord\<close>, the cards, \<open>playerCount\<close>, \<open>gameStarted\<close>
  and \<open>selectedCardIndex\<close> are as before.
\<close>

theorem round_start_frame:
  "handleWebSocketMessage (Round_start lang) st = st\<lparr>currentLanguage := lang\<rparr>
   \<and> currentLanguage (handleWebSocketMessage (Round_start lang) st) = lang
   \<and> currentWord (handleWebSocketMessage (Round_start lang) st) = currentWord st
   \<and> bingoCards (handleWebSocketMessage (Round_start lang) st) = bingoCards st
   \<and> playerCount (handleWebSocketMessage (Round_start lang) st) = playerCount st
   \<and> gameStarted (handleWebSocketMessage (Round_start lang) st) = gameStarted st
   \<and> selectedCardIndex (handleWebSocketMessage (Round_start lang) st) = selectedCardIndex st"
  by simp

theorem round_start_frame_witness:
  "handleWebSocketMessage (Round_start ''dutch'') (initial\<lparr>currentWord := ''SOL''\<rparr>)
     = initial\<lparr>currentWord := ''SOL'', currentLanguage := ''dutch''\<rparr>"
  using round_start_frame [of "''dutch''" "initial\<lparr>currentWord := ''SOL''\<rparr>"]
  by (simp add: initial_def)

lemma length_handleWebSocketMessage:
  "length (bingoCards (handleWebSocketMessage m st)) = length (bingoCards st)"
  by (cases m) (auto simp: Let_def split: option.splits)

lemma step_Message: "step (Message m) st = handleWebSocketMessage m st"
  by (simp add: render_def length_handleWebSocketMessage)

text \<open>
  C4. A \<open>word_selected\<close> message stores its word in \<open>currentWord\<close>; the store keeps its
  length, and the card at every index gets the word appended to its marked words
  exactly when its id is in \<open>card_ids\<close>, the word is among its words and the word is
  not yet marked; every other card is the same object as before.
\<close>

theorem word_selected_marks:
  "currentWord (handleWebSocketMessage (Word_selected word card_ids lang) st) = word
   \<and> length (bingoCards (handleWebSocketMessage (Word_selected word card_ids lang) st))
       = length (bingoCards st)
   \<and> (\<forall>i < length (bingoCards st).
         bingoCards (handleWebSocketMessage (Word_selected word card_ids lang) st) ! i =
         (if (\<exists>ids. card_ids = Some ids \<and> card_id (bingoCards st ! i) \<in> set ids)
             \<and> word \<in> set (words (bingoCards st ! i))
             \<and> word \<notin> set (marked (bingoCards st ! i))
          then (bingoCards st ! i)\<lparr>markedWords := Some (marked (bingoCards st ! i) @ [word])\<rparr>
          else bingoCards st ! i))"
  by (simp add: Let_def markCard_changed markCard_unchanged)

theorem word_selected_marks_witness:
  "bingoCards (handleWebSocketMessage (Word_selected ''SOL'' (Some [''c1'']) None)
     (initial\<lparr>bingoCards :=
        [\<lparr>card_id = ''c1'', words = [''SOL'', ''MAR''], language = ''spanish'',
          transmitted = True, markedWords = Some []\<rparr>,
         \<lparr>card_id = ''c2'', words = [''SOL'', ''MAR''], language = ''spanish'',
          transmitted = True, markedWords = Some []\<rparr>]\<rparr>))
   = [\<lparr>card_id = ''c1'', words = [''SOL'', ''MAR''], language = ''spanish'',
       transmitted = True, markedWords = Some [''SOL'']\<rparr>,
      \<lparr>card_id = ''c2'', words = [''SOL'', ''MAR''], language = ''spanish'',
       transmitted = True, markedWords = Some []\<rparr>]"
  using word_selected_marks [of "''SOL''" "Some [''c1'']" None
     "initial\<lparr>bingoCards :=
        [\<lparr>card_id = ''c1'', words = [''SOL'', ''MAR''], language = ''spanish'',
          transmitted = True, markedWords = Some []\<rparr>,
         \<lparr>card_id = ''c2'', words = [''SOL'', ''MAR''], language = ''spanish'',
          transmitted = True, markedWords = Some []\<rparr>]\<rparr>"]
  by (simp add: initial_def markCard_def marked_def Let_def)

text \<open>
  C5. Handling the same \<open>word_selected\<close> message a second time leaves every card as
  the first handling left it, and no handling puts a word twice into the marked
  words of a card where no word was there twice before.
\<close>

theorem marking_idempotent:
  "bingoCards (handleWebSocketMessage (Word_selected word card_ids lang)
                (handleWebSocketMessage (Word_selected word card_ids lang) st))
     = bingoCards (handleWebSocketMessage (Word_selected word card_ids lang) st)
   \<and> ((\<forall>c \<in> set (bingoCards st). distinct (marked c)) \<longrightarrow>
        (\<forall>c \<in> set (bingoCards (handleWebSocketMessage (Word_selected word card_ids lang) st)).
           distinct (marked c)))"
  by (auto simp: Let_def markCard_idem marked_markCard)

theorem marking_idempotent_witness:
  "map marked (bingoCards (handleWebSocketMessage (Word_selected ''SOL'' (Some [''c1'']) None)
     (handleWebSocketMessage (Word_selected ''SOL'' (Some [''c1'']) None)
       (initial\<lparr>bingoCards :=
          [\<lparr>card_id = ''c1'', words = [''SOL'', ''MAR''], language = ''spanish'',
            transmitted = True, markedWords = Some []\<rparr>]\<rparr>))))
   = [[''SOL'']]"
  using marking_idempotent [of "''SOL''" "Some [''c1'']" None
       "initial\<lparr>bingoCards :=
          [\<lparr>card_id = ''c1'', words = [''SOL'', ''MAR''], language = ''spanish'',
            transmitted = True, markedWords = Some []\<rparr>]\<rparr>"]
  by (simp add: initial_def markCard_def marked_def Let_def)

text \<open>
  C10. A \<open>word_selected\<close> message without a \<open>card_ids\<close> field stores its word in
  \<open>currentWord\<close> and leaves every card of the store as it was.
\<close>

theorem word_selected_without_card_ids:
  "currentWord (handleWebSocketMessage (Word_selected word None lang) st) = word
   \<and> bingoCards (handleWebSocketMessage (Word_selected word None lang) st) = bingoCards st"
  by (simp add: Let_def markCard_def map_idI)

theorem word_selected_without_card_ids_witness:
  "bingoCards (handleWebSocketMessage (Word_selected ''SOL'' None None)
     (initial\<lparr>bingoCards :=
        [\<lparr>card_id = ''c1'', words = [''SOL'', ''MAR''], language = ''spanish'',
          transmitted = True, markedWords = Some []\<rparr>]\<rparr>))
   = [\<lparr>card_id = ''c1'', words = [''SOL'', ''MAR''], language = ''spanish'',
       transmitted = True, markedWords = Some []\<rparr>]"
  using word_selected_without_card_ids [of "''SOL''" None
     "initial\<lparr>bingoCards :=
        [\<lparr>card_id = ''c1'', words = [''SOL'', ''MAR''], language = ''spanish'',
          transmitted = True, markedWords = Some []\<rparr>]\<rparr>"]
  by (simp add: initial_def Let_def markCard_def)

lemma run_three_messages:
  "run [Message a, Message b, Message c] st =
     handleWebSocketMessage c (handleWebSocketMessage b (handleWebSocketMessage a st))"
  by (simp add: step_Message del: step.simps)

text \<open>
  C8. A \<open>round_end\<close> message empties \<open>currentWord\<close> and \<open>currentLanguage\<close>. When it has
  a non-empty list of winners, it stores the winners and its language for the round
  winners modal and shows the modal; otherwise it leaves these three fields alone.
  The messages \<open>round_start\<close> (dutch), \<open>word_selected\<close> (HOND, card c1) and \<open>round_end\<close>
  (winner Ana, dutch), handled in this order from any state, end with an empty
  current word and language and the winners \<open>[Ana]\<close> published for dutch.
\<close>

theorem round_end_effect:
  "currentWord (handleWebSocketMessage (Round_end ws lang) st) = []
   \<and> currentLanguage (handleWebSocketMessage (Round_end ws lang) st) = []
   \<and> (if \<exists>l. ws = Some l \<and> l \<noteq> []
      then roundWinners (handleWebSocketMessage (Round_end ws lang) st) = ws
         \<and> roundLanguage (handleWebSocketMessage (Round_end ws lang) st) = lang
         \<and> showRoundWinnersModal (handleWebSocketMessage (Round_end ws lang) st)
      else roundWinners (handleWebSocketMessage (Round_end ws lang) st) = roundWinners st
         \<and> roundLanguage (handleWebSocketMessage (Round_end ws lang) st) = roundLanguage st
         \<and> showRoundWinnersModal (handleWebSocketMessage (Round_end ws lang) st)
             = showRoundWinnersModal st)
   \<and> currentWord (run [Message (Round_start ''dutch''),
                       Message (Word_selected ''HOND'' (Some [''c1'']) l),
                       Message (Round_end (Some [''Ana'']) ''dutch'')] st) = []
   \<and> currentLanguage (run [Message (Round_start ''dutch''),
                           Message (Word_selected ''HOND'' (Some [''c1'']) l),
                           Message (Round_end (Some [''Ana'']) ''dutch'')] st) = []
   \<and> roundWinners (run [Message (Round_start ''dutch''),
                        Message (Word_selected ''HOND'' (Some [''c1'']) l),
                        Message (Round_end (Some [''Ana'']) ''dutch'')] st) = Some [''Ana'']
   \<and> roundLanguage (run [Message (Round_start ''dutch''),
                         Message (Word_selected ''HOND'' (Some [''c1'']) l),
                         Message (Round_end (Some [''Ana'']) ''dutch'')] st) = ''dutch''
   \<and> showRoundWinnersModal (run [Message (Round_start ''dutch''),
                         Message (Word_selected ''HOND'' (Some [''c1'']) l),
                         Message (Round_end (Some [''Ana'']) ''dutch'')] st)"
  unfolding run_three_messages by (auto simp: Let_def split: option.splits)

theorem round_end_effect_witness:
  "roundWinners (handleWebSocketMessage (Round_end (Some [''Ana'']) ''dutch'') initial)
     = Some [''Ana'']
   \<and> roundWinners (handleWebSocketMessage (Round_end (Some []) ''dutch'') initial) = None
   \<and> roundWinners (handleWebSocketMessage (Round_end None ''dutch'') initial) = None"
  using round_end_effect [of "Some [''Ana'']" "''dutch''" initial]
        round_end_effect [of "Some []" "''dutch''" initial]
        round_end_effect [of None "''dutch''" initial]
  by (simp add: initial_def Let_def)

section \<open>Properties of the transmission\<close>

lemma findIndex_None: "findIndex P xs = None \<longleftrightarrow> (\<forall>x \<in> set xs. \<not> P x)"
  by (induction xs) auto

lemma transmitNextCard_Some:
  assumes "bingoCards st = pre @ c # post" "\<forall>y \<in> set pre. transmitted y" "\<not> transmitted c"
  shows "transmitNextCard st =
           (sendBingoCard c st)\<lparr>timers := timers st @ [pre @ c\<lparr>transmitted := True\<rparr> # post],
                                 bingoCards := pre @ c\<lparr>transmitted := True\<rparr> # post\<rparr>"
proof -
  have "findIndex (\<lambda>c. \<not> transmitted c) (pre @ c # post) = Some (length pre)"
    using assms(2,3) by (induction pre) auto
  then show ?thesis
    using assms(1) by (simp add: transmitNextCard_def Let_def sendBingoCard_def)
qed

lemma transmitNextCard_None:
  assumes "\<forall>y \<in> set (bingoCards st). transmitted y"
  shows "transmitNextCard st = st\<lparr>isTransmitting := False\<rparr>"
proof -
  have "findIndex (\<lambda>c. \<not> transmitted c) (bingoCards st) = None"
    using assms by (simp add: findIndex_None)
  then show ?thesis by (simp add: transmitNextCard_def)
qed

lemma split_store:
  "\<exists>pre post. cs = pre @ post \<and> (\<forall>y \<in> set pre. transmitted y) \<and> (post = [] \<or> \<not> transmitted (hd post))"
proof (intro exI conjI)
  show "cs = takeWhile transmitted cs @ dropWhile transmitted cs" by simp
  show "\<forall>y \<in> set (takeWhile transmitted cs). transmitted y" by (blast dest: set_takeWhileD)
  show "dropWhile transmitted cs = [] \<or> \<not> transmitted (hd (dropWhile transmitted cs))"
    using hd_dropWhile [of transmitted cs] by blast
qed

lemma transmitNextCard_cases:
  "((\<forall>y \<in> set (bingoCards st). transmitted y) \<and> transmitNextCard st = st\<lparr>isTransmitting := False\<rparr>)
   \<or> (\<exists>pre c post. bingoCards st = pre @ c # post \<and> (\<forall>y \<in> set pre. transmitted y)
          \<and> \<not> transmitted c
          \<and> transmitNextCard st =
              (sendBingoCard c st)\<lparr>timers := timers st @ [pre @ c\<lparr>transmitted := True\<rparr> # post],
                                    bingoCards := pre @ c\<lparr>transmitted := True\<rparr> # post\<rparr>)"
proof (cases "\<forall>y \<in> set (bingoCards st). transmitted y")
  case True
  then show ?thesis by (simp add: transmitNextCard_None)
next
  case False
  obtain pre post where sp: "bingoCards st = pre @ post" "\<forall>y \<in> set pre. transmitted y"
      "post = [] \<or> \<not> transmitted (hd post)"
    using split_store by blast
  with False obtain c rest where post: "post = c # rest" "\<not> transmitted c"
    by (cases post) auto
  have "transmitNextCard st =
           (sendBingoCard c st)\<lparr>timers := timers st @ [pre @ c\<lparr>transmitted := True\<rparr> # rest],
                                 bingoCards := pre @ c\<lparr>transmitted := True\<rparr> # rest\<rparr>"
    using transmitNextCard_Some [of st pre c rest] sp post by simp
  with sp post show ?thesis by blast
qed

lemma sendBingoCard_fields:
  "bingoCards (sendBingoCard c st) = bingoCards st"
  "timers (sendBingoCard c st) = timers st"
  "isTransmitting (sendBingoCard c st) = isTransmitting st"
  "socketRef (sendBingoCard c st) = socketRef st"
  by (simp_all add: sendBingoCard_def)

lemma transmitNextCard_cards:
  "bingoCards (transmitNextCard st) = bingoCards st
   \<or> (\<exists>pre c post. bingoCards st = pre @ c # post
         \<and> bingoCards (transmitNextCard st) = pre @ c\<lparr>transmitted := True\<rparr> # post)"
proof -
  from transmitNextCard_cases [of st] show ?thesis
  proof (elim disjE conjE exE)
    assume "transmitNextCard st = st\<lparr>isTransmitting := False\<rparr>"
    then show ?thesis by simp
  next
    fix pre c post
    assume a: "bingoCards st = pre @ c # post"
      and b: "transmitNextCard st =
                (sendBingoCard c st)\<lparr>timers := timers st @ [pre @ c\<lparr>transmitted := True\<rparr> # post],
                                      bingoCards := pre @ c\<lparr>transmitted := True\<rparr> # post\<rparr>"
    from b have "bingoCards (transmitNextCard st) = pre @ c\<lparr>transmitted := True\<rparr> # post"
      by simp
    with a show ?thesis by blast
  qed
qed

lemma transmissionEffect_cards:
  "bingoCards (transmissionEffect st) = bingoCards st
   \<or> (\<exists>pre c post. bingoCards st = pre @ c # post
         \<and> bingoCards (transmissionEffect st) = pre @ c\<lparr>transmitted := True\<rparr> # post)"
  using transmitNextCard_cards [of "st\<lparr>isTransmitting := True\<rparr>"]
  by (auto simp: transmissionEffect_def Let_def)

lemma render_cards:
  "bingoCards (render old new) = bingoCards new
   \<or> (\<exists>pre c post. bingoCards new = pre @ c # post
         \<and> bingoCards (render old new) = pre @ c\<lparr>transmitted := True\<rparr> # post)"
  using transmissionEffect_cards [of new] by (auto simp: render_def)

lemma timer_cards:
  "bingoCards (step TimerFires st) = bingoCards st
   \<or> (\<exists>pre c post. bingoCards st = pre @ c # post
         \<and> bingoCards (step TimerFires st) = pre @ c\<lparr>transmitted := True\<rparr> # post)"
proof (cases "timers st")
  case Nil
  then show ?thesis by simp
next
  case (Cons u rest)
  then show ?thesis
    using transmitNextCard_cards [of "st\<lparr>timers := rest\<rparr>"]
    by (auto simp: timerCallback_def Let_def)
qed

lemma parseLine_fresh: "c \<in> set (parseLine line) \<Longrightarrow> \<not> transmitted c \<and> markedWords c = Some []"
  by (auto simp: parseLine_def Let_def split: if_splits)

lemma parseTxtFile_fresh:
  "c \<in> set (parseTxtFile content) \<Longrightarrow> \<not> transmitted c \<and> markedWords c = Some []"
  by (auto simp: parseTxtFile_def Let_def dest: parseLine_fresh split: if_splits)

lemma handleManualSubmit_cards:
  "\<exists>new. bingoCards (handleManualSubmit st) = bingoCards st @ new
     \<and> (\<forall>c \<in> set new. \<not> transmitted c \<and> markedWords c = Some [])"
proof (cases "bingoCards (handleManualSubmit st) = bingoCards st")
  case True
  then show ?thesis by (intro exI [of _ "[]"]) simp
next
  case False
  then show ?thesis
    by (auto simp: handleManualSubmit_def Let_def split: if_splits)
qed

lemma markCard_fields:
  "transmitted (markCard word card_ids c) = transmitted c"
  "bingoCardMessage (markCard word card_ids c) = bingoCardMessage c"
  "words (markCard word card_ids c) = words c"
  by (simp_all add: markCard_def bingoCardMessage_def)

text \<open>The file reads in progress are touched by the two file events only.\<close>

lemma transmitNextCard_reads: "reads (transmitNextCard st) = reads st"
  by (simp add: transmitNextCard_def Let_def sendBingoCard_def split: option.splits)

lemma render_reads: "reads (render old new) = reads new"
  by (simp add: render_def transmissionEffect_def Let_def transmitNextCard_reads)

lemma handleWebSocketMessage_reads: "reads (handleWebSocketMessage m st) = reads st"
  by (cases m) (simp_all add: Let_def split: option.splits)

lemma timer_reads: "reads (step TimerFires st) = reads st"
  by (cases "timers st") (simp_all add: timerCallback_def Let_def transmitNextCard_reads)

lemma step_reads: "set (reads (step e st)) \<subseteq> insert (bingoCards st) (set (reads st))"
proof (cases e)
  case FileChosen
  then show ?thesis by (auto simp: handleFileUpload_def)
next
  case (FileLoaded n content)
  have "set (take n (reads st) @ drop (Suc n) (reads st)) \<subseteq> set (reads st)"
    using set_take_subset [of n "reads st"] set_drop_subset [of "Suc n" "reads st"] by auto
  with FileLoaded show ?thesis
    by (auto simp: render_reads onload_def Let_def)
next
  case ManualSubmit
  then show ?thesis by (auto simp: render_reads handleManualSubmit_def Let_def)
next
  case (Message m)
  then show ?thesis by (auto simp: render_reads handleWebSocketMessage_reads)
next
  case TimerFires
  then show ?thesis using timer_reads [of st] by auto
qed auto

text \<open>Every step sends at most one message, and only messages of \<open>sendBingoCard\<close>.\<close>

lemma transmitNextCard_sent:
  "sent (transmitNextCard st) = sent st
   \<or> (\<exists>c. sent (transmitNextCard st) = sent st @ [bingoCardMessage c])"
  by (auto simp: transmitNextCard_def Let_def sendBingoCard_def split: option.splits)

lemma render_sent:
  "sent (render old new) = sent new
   \<or> (\<exists>c. sent (render old new) = sent new @ [bingoCardMessage c])"
  using transmitNextCard_sent [of "new\<lparr>isTransmitting := True\<rparr>"]
  by (auto simp: render_def transmissionEffect_def Let_def)

lemma handleWebSocketMessage_sent: "sent (handleWebSocketMessage m st) = sent st"
  by (cases m) (simp_all add: Let_def split: option.splits)

lemma step_sends_at_most_one:
  "sent (step e st) = sent st \<or> (\<exists>c. sent (step e st) = sent st @ [bingoCardMessage c])"
proof (cases e)
  case (FileLoaded n content)
  let ?new = "onload (reads st ! n) content (st\<lparr>reads := take n (reads st) @ drop (Suc n) (reads st)\<rparr>)"
  have "sent ?new = sent st" by (simp add: onload_def Let_def)
  with FileLoaded show ?thesis using render_sent [of st ?new] by auto
next
  case ManualSubmit
  have "sent (handleManualSubmit st) = sent st" by (simp add: handleManualSubmit_def Let_def)
  with ManualSubmit show ?thesis using render_sent [of st "handleManualSubmit st"] by auto
next
  case (Message m)
  then show ?thesis
    using render_sent [of st "handleWebSocketMessage m st"] by (auto simp: handleWebSocketMessage_sent)
next
  case TimerFires
  show ?thesis
  proof (cases "timers st")
    case Nil
    with TimerFires show ?thesis by simp
  next
    case (Cons u rest)
    with TimerFires show ?thesis
      using transmitNextCard_sent [of "st\<lparr>timers := rest\<rparr>"]
      by (auto simp: timerCallback_def Let_def)
  qed
qed (simp_all add: handleFileUpload_def)

lemma run_sent:
  "\<forall>f \<in> set (sent st). \<exists>c. f = bingoCardMessage c \<Longrightarrow>
   \<forall>f \<in> set (sent (run es st)). \<exists>c. f = bingoCardMessage c"
proof (induction es arbitrary: st)
  case Nil
  then show ?case by simp
next
  case (Cons e es)
  have "\<forall>f \<in> set (sent (step e st)). \<exists>c. f = bingoCardMessage c"
    using step_sends_at_most_one [of e st] Cons.prems by auto
  then show ?case using Cons.IH [of "step e st"] by (simp del: step.simps)
qed

text \<open>
  At most one timer of \<open>transmitNextCard\<close> is pending, and only while \<open>isTransmitting\<close>
  is set.
\<close>

lemma transmitNextCard_timer:
  "timers st = [] \<Longrightarrow> isTransmitting st \<Longrightarrow>
   length (timers (transmitNextCard st)) \<le> 1
   \<and> (timers (transmitNextCard st) = [] \<or> isTransmitting (transmitNextCard st))"
  by (simp add: transmitNextCard_def Let_def sendBingoCard_def split: option.splits)

lemma render_timer:
  assumes "length (timers new) \<le> 1 \<and> (timers new = [] \<or> isTransmitting new)"
  shows "length (timers (render old new)) \<le> 1
         \<and> (timers (render old new) = [] \<or> isTransmitting (render old new))"
proof (cases "isTransmitting new")
  case True
  with assms show ?thesis by (simp add: render_def transmissionEffect_def Let_def)
next
  case False
  with assms have "timers new = []" by simp
  then show ?thesis
    using assms transmitNextCard_timer [of "new\<lparr>isTransmitting := True\<rparr>"]
    by (simp add: render_def transmissionEffect_def Let_def)
qed

lemma handleWebSocketMessage_timer:
  "timers (handleWebSocketMessage m st) = timers st"
  "isTransmitting (handleWebSocketMessage m st) = isTransmitting st"
  by (cases m; simp add: Let_def split: option.splits)+

lemma step_timer:
  assumes "length (timers st) \<le> 1 \<and> (timers st = [] \<or> isTransmitting st)"
  shows "length (timers (step e st)) \<le> 1
         \<and> (timers (step e st) = [] \<or> isTransmitting (step e st))"
proof (cases e)
  case (FileLoaded n content)
  let ?new = "onload (reads st ! n) content (st\<lparr>reads := take n (reads st) @ drop (Suc n) (reads st)\<rparr>)"
  have "timers ?new = timers st" "isTransmitting ?new = isTransmitting st"
    by (simp_all add: onload_def Let_def)
  with assms have "length (timers ?new) \<le> 1 \<and> (timers ?new = [] \<or> isTransmitting ?new)"
    by simp
  then show ?thesis using FileLoaded assms render_timer [of ?new st] by simp
next
  case ManualSubmit
  have "timers (handleManualSubmit st) = timers st"
    "isTransmitting (handleManualSubmit st) = isTransmitting st"
    by (simp_all add: handleManualSubmit_def Let_def)
  with assms have "length (timers (handleManualSubmit st)) \<le> 1
      \<and> (timers (handleManualSubmit st) = [] \<or> isTransmitting (handleManualSubmit st))"
    by simp
  then show ?thesis using ManualSubmit render_timer [of "handleManualSubmit st" st] by simp
next
  case (Message m)
  from assms have "length (timers (handleWebSocketMessage m st)) \<le> 1
      \<and> (timers (handleWebSocketMessage m st) = [] \<or> isTransmitting (handleWebSocketMessage m st))"
    by (simp add: handleWebSocketMessage_timer)
  then show ?thesis using Message render_timer [of "handleWebSocketMessage m st" st] by simp
next
  case TimerFires
  show ?thesis
  proof (cases "timers st")
    case Nil
    with TimerFires assms show ?thesis by simp
  next
    case (Cons u rest)
    with assms have r: "rest = []" "isTransmitting st" by auto
    with Cons TimerFires show ?thesis
      using transmitNextCard_timer [of "st\<lparr>timers := []\<rparr>"]
      by (simp add: timerCallback_def Let_def)
  qed
qed (use assms in \<open>simp_all add: handleFileUpload_def\<close>)

lemma one_timer_pending:
  "length (timers (run es initial)) \<le> 1
   \<and> (timers (run es initial) = [] \<or> isTransmitting (run es initial))"
proof -
  have "length (timers st) \<le> 1 \<and> (timers st = [] \<or> isTransmitting st) \<Longrightarrow>
        length (timers (run es st)) \<le> 1 \<and> (timers (run es st) = [] \<or> isTransmitting (run es st))"
    for st
  proof (induction es arbitrary: st)
    case Nil
    then show ?case by simp
  next
    case (Cons e es)
    from step_timer [OF Cons.prems, of e] show ?case
      using Cons.IH [of "step e st"] by (simp del: step.simps)
  qed
  then show ?thesis by (simp add: initial_def)
qed

text \<open>Marked words stay among the words of their card.\<close>

lemma marked_transmitted: "marked (c\<lparr>transmitted := b\<rparr>) = marked c"
  by (simp add: marked_def)

lemma render_marked: "markedWithinWords new \<Longrightarrow> markedWithinWords (render old new)"
  using render_cards [of old new]
  by (auto simp: markedWithinWords_def marked_transmitted render_reads)

lemma markCard_within:
  "set (marked c) \<subseteq> set (words c) \<Longrightarrow>
   set (marked (markCard word card_ids c)) \<subseteq> set (words (markCard word card_ids c))"
  by (auto simp: marked_markCard markCard_fields)

lemma message_marked:
  "markedWithinWords st \<Longrightarrow> markedWithinWords (handleWebSocketMessage m st)"
proof (cases m)
  case (Word_selected word card_ids lang)
  assume "markedWithinWords st"
  with Word_selected show ?thesis
    by (simp add: markedWithinWords_def Let_def list_all_iff markCard_within)
qed (auto simp: markedWithinWords_def Let_def split: option.splits)

lemma fresh_within: "markedWords c = Some [] \<Longrightarrow> set (marked c) \<subseteq> set (words c)"
  by (simp add: marked_def)

lemma onload_marked:
  assumes "list_all (\<lambda>c. set (marked c) \<subseteq> set (words c)) seen"
    and "list_all (list_all (\<lambda>c. set (marked c) \<subseteq> set (words c))) (reads st)"
    and "list_all (\<lambda>c. set (marked c) \<subseteq> set (words c)) (bingoCards st)"
  shows "markedWithinWords (onload seen content st)"
proof -
  have "\<forall>c \<in> set (parseTxtFile content). set (marked c) \<subseteq> set (words c)"
    using parseTxtFile_fresh fresh_within by blast
  with assms show ?thesis
    by (auto simp: markedWithinWords_def onload_def Let_def list_all_iff)
qed

lemma step_marked: "markedWithinWords st \<Longrightarrow> markedWithinWords (step e st)"
proof (cases e)
  case FileChosen
  assume "markedWithinWords st"
  with FileChosen show ?thesis by (simp add: markedWithinWords_def handleFileUpload_def)
next
  case (FileLoaded n content)
  assume m: "markedWithinWords st"
  show ?thesis
  proof (cases "n < length (reads st)")
    case True
    let ?st = "st\<lparr>reads := take n (reads st) @ drop (Suc n) (reads st)\<rparr>"
    from m True have a: "list_all (\<lambda>c. set (marked c) \<subseteq> set (words c)) (reads st ! n)"
      by (simp add: markedWithinWords_def list_all_length)
    have "set (take n (reads st) @ drop (Suc n) (reads st)) \<subseteq> set (reads st)"
      using set_take_subset [of n "reads st"] set_drop_subset [of "Suc n" "reads st"] by auto
    with m have b: "list_all (list_all (\<lambda>c. set (marked c) \<subseteq> set (words c))) (reads ?st)"
      by (auto simp: markedWithinWords_def list_all_iff)
    from m have c: "list_all (\<lambda>c. set (marked c) \<subseteq> set (words c)) (bingoCards ?st)"
      by (simp add: markedWithinWords_def)
    have "markedWithinWords (onload (reads st ! n) content ?st)"
      using a b c by (rule onload_marked)
    with True FileLoaded show ?thesis by (simp add: render_marked)
  next
    case False
    with m FileLoaded show ?thesis by simp
  qed
next
  case ManualSubmit
  assume m: "markedWithinWords st"
  obtain new where "bingoCards (handleManualSubmit st) = bingoCards st @ new"
      "\<forall>c \<in> set new. \<not> transmitted c \<and> markedWords c = Some []"
    using handleManualSubmit_cards by blast
  moreover have "reads (handleManualSubmit st) = reads st"
    by (simp add: handleManualSubmit_def Let_def)
  ultimately have "markedWithinWords (handleManualSubmit st)"
    using m by (auto simp: markedWithinWords_def list_all_iff dest: fresh_within)
  with ManualSubmit show ?thesis by (simp add: render_marked)
next
  case (Message m)
  assume "markedWithinWords st"
  with Message show ?thesis by (simp add: render_marked message_marked)
next
  case TimerFires
  assume "markedWithinWords st"
  with TimerFires show ?thesis
    using timer_cards [of st] timer_reads [of st]
    by (auto simp: markedWithinWords_def marked_transmitted simp del: step.simps)
qed (simp_all add: markedWithinWords_def)

lemma run_marked: "markedWithinWords st \<Longrightarrow> markedWithinWords (run es st)"
  by (induction es arbitrary: st) (simp_all add: step_marked del: step.simps)

text \<open>
  C3 on the code, with the socket open in both runs. In the first run the file with
  the cards \<open>a\<close> and \<open>b\<close> is loaded and \<open>a\<close> is sent; a second file is chosen while \<open>b\<close>
  is not yet transmitted; the timer fires and \<open>b\<close> is sent; the read of the second
  file ends and puts back the store it has captured, in which \<open>b\<close> is not
  transmitted; the timer ends the transmission; a third file is loaded, and the new
  transmission sends \<open>b\<close> a second time, then \<open>c\<close> and \<open>d\<close>. In the second run three
  files of one card each are loaded before the first timer fires: \<open>a\<close> is sent, the
  timer looks at the cards it has captured, where nothing is left to send, and ends
  the transmission; \<open>b\<close> and \<open>c\<close> are in the store, not transmitted, and no timer is
  pending.
\<close>

theorem transmission_repeats_and_stalls:
  "sent_ids (run [Socket (Some OPEN), FileChosen, FileLoaded 0 first_two_cards, FileChosen,
                  TimerFires, FileLoaded 0 ''c MAR'', TimerFires, FileChosen,
                  FileLoaded 0 ''d SOL'', TimerFires, TimerFires, TimerFires] initial)
     = [Some (JString ''a''), Some (JString ''b''), Some (JString ''b''), Some (JString ''c''),
        Some (JString ''d'')]
   \<and> map card_id
        (bingoCards (run [Socket (Some OPEN), FileChosen, FileLoaded 0 first_two_cards, FileChosen,
                  TimerFires, FileLoaded 0 ''c MAR'', TimerFires, FileChosen,
                  FileLoaded 0 ''d SOL'', TimerFires, TimerFires, TimerFires] initial))
     = [''a'', ''b'', ''c'', ''d'']
   \<and> sent_ids (run [Socket (Some OPEN), FileChosen, FileLoaded 0 ''a SOL'', FileChosen,
                    FileLoaded 0 ''b LUNA'', FileChosen, FileLoaded 0 ''c MAR'', TimerFires]
                 initial)
     = [Some (JString ''a'')]
   \<and> map (\<lambda>c. (card_id c, transmitted c))
        (bingoCards (run [Socket (Some OPEN), FileChosen, FileLoaded 0 ''a SOL'', FileChosen,
                    FileLoaded 0 ''b LUNA'', FileChosen, FileLoaded 0 ''c MAR'', TimerFires]
                 initial))
     = [(''a'', True), (''b'', False), (''c'', False)]
   \<and> timers (run [Socket (Some OPEN), FileChosen, FileLoaded 0 ''a SOL'', FileChosen,
                    FileLoaded 0 ''b LUNA'', FileChosen, FileLoaded 0 ''c MAR'', TimerFires]
                 initial) = []
   \<and> isTransmitting (run [Socket (Some OPEN), FileChosen, FileLoaded 0 ''a SOL'', FileChosen,
                    FileLoaded 0 ''b LUNA'', FileChosen, FileLoaded 0 ''c MAR'', TimerFires]
                 initial) = False"
  by code_simp

text \<open>
  C6. Every card that \<open>parseTxtFile\<close> returns and every card that \<open>handleManualSubmit\<close>
  appends has no marked word. Every event keeps the marked words of every card
  among the words of that card, in the store and in the stores that the file reads
  in progress have captured: the marking of a \<open>word_selected\<close> message, the setting of
  \<open>transmitted\<close> by the sequencer and the appending of new cards. So in every run
  from the initial state, every card of the store has its marked words among its
  words.
\<close>

theorem marked_words_within_words:
  "(\<forall>c \<in> set (parseTxtFile content). markedWords c = Some [])
   \<and> (\<exists>new. bingoCards (handleManualSubmit st) = bingoCards st @ new
             \<and> (\<forall>c \<in> set new. markedWords c = Some []))
   \<and> ((\<forall>c \<in> set (bingoCards st). set (marked c) \<subseteq> set (words c))
        \<and> (\<forall>cs \<in> set (reads st). \<forall>c \<in> set cs. set (marked c) \<subseteq> set (words c)) \<longrightarrow>
        (\<forall>c \<in> set (bingoCards (step e st)). set (marked c) \<subseteq> set (words c))
        \<and> (\<forall>cs \<in> set (reads (step e st)). \<forall>c \<in> set cs. set (marked c) \<subseteq> set (words c)))
   \<and> (\<forall>c \<in> set (bingoCards (run es initial)). set (marked c) \<subseteq> set (words c))"
proof -
  have a: "\<forall>c \<in> set (parseTxtFile content). markedWords c = Some []"
    using parseTxtFile_fresh by blast
  have b: "\<exists>new. bingoCards (handleManualSubmit st) = bingoCards st @ new
             \<and> (\<forall>c \<in> set new. markedWords c = Some [])"
    using handleManualSubmit_cards [of st] by blast
  have c: "(\<forall>c \<in> set (bingoCards st). set (marked c) \<subseteq> set (words c))
        \<and> (\<forall>cs \<in> set (reads st). \<forall>c \<in> set cs. set (marked c) \<subseteq> set (words c)) \<longrightarrow>
        (\<forall>c \<in> set (bingoCards (step e st)). set (marked c) \<subseteq> set (words c))
        \<and> (\<forall>cs \<in> set (reads (step e st)). \<forall>c \<in> set cs. set (marked c) \<subseteq> set (words c))"
  proof (intro impI)
    assume "(\<forall>c \<in> set (bingoCards st). set (marked c) \<subseteq> set (words c))
        \<and> (\<forall>cs \<in> set (reads st). \<forall>c \<in> set cs. set (marked c) \<subseteq> set (words c))"
    then have "markedWithinWords st" by (simp add: markedWithinWords_def list_all_iff)
    then have "markedWithinWords (step e st)" by (rule step_marked)
    then show "(\<forall>c \<in> set (bingoCards (step e st)). set (marked c) \<subseteq> set (words c))
        \<and> (\<forall>cs \<in> set (reads (step e st)). \<forall>c \<in> set cs. set (marked c) \<subseteq> set (words c))"
      by (simp add: markedWithinWords_def list_all_iff del: step.simps)
  qed
  have "markedWithinWords initial" by (simp add: markedWithinWords_def initial_def)
  then have "markedWithinWords (run es initial)" by (rule run_marked)
  then have d: "\<forall>c \<in> set (bingoCards (run es initial)). set (marked c) \<subseteq> set (words c)"
    by (simp add: markedWithinWords_def list_all_iff)
  from a b c d show ?thesis by blast
qed

theorem marked_words_within_words_witness:
  "map (\<lambda>c. (marked c, words c))
     (bingoCards (run [Socket (Some OPEN), FileChosen, FileLoaded 0 three_cards, TimerFires,
                       Message (Word_selected ''LUNA'' (Some [''a'', ''b'']) None)] initial))
   = [([], [''SOL'']), ([''LUNA''], [''LUNA'']), ([], [''MAR''])]
   \<and> list_all (\<lambda>c. set (marked c) \<subseteq> set (words c))
       (bingoCards (run [Socket (Some OPEN), FileChosen, FileLoaded 0 three_cards, TimerFires,
                       Message (Word_selected ''LUNA'' (Some [''a'', ''b'']) None)] initial))
   \<and> map markedWords (parseTxtFile three_cards) = [Some [], Some [], Some []]
   \<and> list_all (\<lambda>c. set (marked c) \<subseteq> set (words c))
       (bingoCards (step (FileLoaded 0 three_cards) (step FileChosen initial)))
   \<and> length (bingoCards (step (FileLoaded 0 three_cards) (step FileChosen initial))) = 3"
proof -
  let ?es = "[Socket (Some OPEN), FileChosen, FileLoaded 0 three_cards, TimerFires,
              Message (Word_selected ''LUNA'' (Some [''a'', ''b'']) None)]"
  let ?st = "step FileChosen initial"
  have v: "map (\<lambda>c. (marked c, words c)) (bingoCards (run ?es initial))
            = [([], [''SOL'']), ([''LUNA''], [''LUNA'']), ([], [''MAR''])]"
    by code_simp
  have p: "map markedWords (parseTxtFile three_cards) = [Some [], Some [], Some []]"
    by code_simp
  have l: "length (bingoCards (step (FileLoaded 0 three_cards) ?st)) = 3" by code_simp
  have h: "(\<forall>c \<in> set (bingoCards ?st). set (marked c) \<subseteq> set (words c))
        \<and> (\<forall>cs \<in> set (reads ?st). \<forall>c \<in> set cs. set (marked c) \<subseteq> set (words c))"
    by (simp add: initial_def handleFileUpload_def)
  note t = marked_words_within_words [of three_cards initial "FileLoaded 0 three_cards" ?es]
    marked_words_within_words [of three_cards ?st "FileLoaded 0 three_cards" ?es]
  from t have "\<forall>c \<in> set (bingoCards (run ?es initial)). set (marked c) \<subseteq> set (words c)"
    by blast
  then have r: "list_all (\<lambda>c. set (marked c) \<subseteq> set (words c)) (bingoCards (run ?es initial))"
    by (simp add: list_all_iff)
  from t(2) h have "\<forall>c \<in> set (bingoCards (step (FileLoaded 0 three_cards) ?st)).
      set (marked c) \<subseteq> set (words c)"
    by blast
  then have s: "list_all (\<lambda>c. set (marked c) \<subseteq> set (words c))
      (bingoCards (step (FileLoaded 0 three_cards) ?st))"
    by (simp add: list_all_iff)
  from v p l r s show ?thesis by (simp del: run.simps step.simps)
qed

text \<open>
  C7 as the code has it. The message that \<open>sendBingoCard\<close> sends on an open socket has
  two fields: \<open>type\<close>, which is \<open>bingo_card\<close>, and \<open>card\<close>, an object with the id, the
  words and the language of the card. In every run from the initial state, every
  message sent is this message for some card.
\<close>

theorem bingo_card_message_nested:
  "(socketRef st = Some OPEN \<longrightarrow>
      sent (sendBingoCard c st) = sent st @
        [JObject [(''type'', JString ''bingo_card''),
                  (''card'', JObject [(''id'', JString (card_id c)),
                                      (''words'', JArray (map JString (words c))),
                                      (''language'', JString (language c))])]])
   \<and> (\<forall>f \<in> set (sent (run es initial)). \<exists>c :: card.
         f = JObject [(''type'', JString ''bingo_card''),
                      (''card'', JObject [(''id'', JString (card_id c)),
                                          (''words'', JArray (map JString (words c))),
                                          (''language'', JString (language c))])])"
proof -
  have "\<forall>f \<in> set (sent initial). \<exists>c. f = bingoCardMessage c" by (simp add: initial_def)
  then have "\<forall>f \<in> set (sent (run es initial)). \<exists>c. f = bingoCardMessage c"
    by (rule run_sent)
  then show ?thesis by (simp add: sendBingoCard_def bingoCardMessage_def)
qed

theorem bingo_card_message_nested_witness:
  "socketRef (initial\<lparr>socketRef := Some OPEN\<rparr>) = Some OPEN
   \<and> sent (sendBingoCard \<lparr>card_id = ''c1'', words = [''SOL'', ''LUNA'', ''MAR''],
                            language = ''spanish'', transmitted = False, markedWords = Some []\<rparr>
             (initial\<lparr>socketRef := Some OPEN\<rparr>))
      = [JObject [(''type'', JString ''bingo_card''),
                  (''card'', JObject [(''id'', JString ''c1''),
                                      (''words'', JArray [JString ''SOL'', JString ''LUNA'', JString ''MAR'']),
                                      (''language'', JString ''spanish'')])]]
   \<and> length (sent (run [Socket (Some OPEN), FileChosen, FileLoaded 0 three_cards, TimerFires]
                     initial)) = 2
   \<and> list_all (\<lambda>f. field f ''type'' = Some (JString ''bingo_card'') \<and> field f ''id'' = None)
        (sent (run [Socket (Some OPEN), FileChosen, FileLoaded 0 three_cards, TimerFires] initial))"
proof -
  let ?c = "\<lparr>card_id = ''c1'', words = [''SOL'', ''LUNA'', ''MAR''],
                            language = ''spanish'', transmitted = False, markedWords = Some []\<rparr>"
  let ?es = "[Socket (Some OPEN), FileChosen, FileLoaded 0 three_cards, TimerFires]"
  note t = bingo_card_message_nested [of "initial\<lparr>socketRef := Some OPEN\<rparr>" ?c ?es]
  have o: "socketRef (initial\<lparr>socketRef := Some OPEN\<rparr>) = Some OPEN" by simp
  from t o have s: "sent (sendBingoCard ?c (initial\<lparr>socketRef := Some OPEN\<rparr>))
      = sent (initial\<lparr>socketRef := Some OPEN\<rparr>) @
        [JObject [(''type'', JString ''bingo_card''),
                  (''card'', JObject [(''id'', JString (card_id ?c)),
                                      (''words'', JArray (map JString (words ?c))),
                                      (''language'', JString (language ?c))])]]"
    by blast
  have l: "length (sent (run ?es initial)) = 2" by code_simp
  from t have "\<forall>f \<in> set (sent (run ?es initial)). \<exists>c :: card.
         f = JObject [(''type'', JString ''bingo_card''),
                      (''card'', JObject [(''id'', JString (card_id c)),
                                          (''words'', JArray (map JString (words c))),
                                          (''language'', JString (language c))])]"
    by blast
  then have "\<forall>f \<in> set (sent (run ?es initial)).
      field f ''type'' = Some (JString ''bingo_card'') \<and> field f ''id'' = None"
    by (auto simp del: run.simps)
  then have a: "list_all (\<lambda>f. field f ''type'' = Some (JString ''bingo_card'') \<and> field f ''id'' = None)
      (sent (run ?es initial))"
    by (simp add: list_all_iff del: run.simps)
  have e: "sent (initial\<lparr>socketRef := Some OPEN\<rparr>) = []" by (simp add: initial_def)
  from s e o l a show ?thesis by (simp del: run.simps)
qed

text \<open>
  C7 as the specification states it fails: the message sent for the card \<open>c1\<close> has
  no field \<open>id\<close>, \<open>words\<close> or \<open>language\<close> beside \<open>type\<close>; these are fields of its
  field \<open>card\<close>.
\<close>

theorem bingo_card_message_not_flat:
  "sent (run [Socket (Some OPEN), FileChosen, FileLoaded 0 ''c1 SOL LUNA MAR''] initial)
     = [JObject [(''type'', JString ''bingo_card''),
                 (''card'', JObject [(''id'', JString ''c1''),
                                     (''words'', JArray [JString ''SOL'', JString ''LUNA'', JString ''MAR'']),
                                     (''language'', JString ''spanish'')])]]
   \<and> sent (run [Socket (Some OPEN), FileChosen, FileLoaded 0 ''c1 SOL LUNA MAR''] initial)
     \<noteq> [JObject [(''type'', JString ''bingo_card''),
                 (''id'', JString ''c1''),
                 (''words'', JArray [JString ''SOL'', JString ''LUNA'', JString ''MAR'']),
                 (''language'', JString ''spanish'')]]
   \<and> map (\<lambda>f. (field f ''type'', field f ''id'', field f ''words'', field f ''language''))
         (sent (run [Socket (Some OPEN), FileChosen, FileLoaded 0 ''c1 SOL LUNA MAR''] initial))
     = [(Some (JString ''bingo_card''), None, None, None)]"
  by code_simp

text \<open>
  C1 on the code. When the socket is not open and \<open>transmitNextCard\<close> finds a card
  that is not transmitted, nothing is sent, and the card is marked as transmitted
  all the same.
\<close>

theorem closed_socket_marks_transmitted:
  "socketRef st \<noteq> Some OPEN \<Longrightarrow> bingoCards st = pre @ c # post \<Longrightarrow>
   \<forall>y \<in> set pre. transmitted y \<Longrightarrow> \<not> transmitted c \<Longrightarrow>
   sent (transmitNextCard st) = sent st
   \<and> bingoCards (transmitNextCard st) = pre @ c\<lparr>transmitted := True\<rparr> # post"
  by (simp add: transmitNextCard_Some sendBingoCard_def)

theorem closed_socket_marks_transmitted_witness:
  "sent (transmitNextCard
      (initial\<lparr>socketRef := Some CONNECTING, isTransmitting := True,
                bingoCards := [\<lparr>card_id = ''c1'', words = [''SOL'', ''LUNA'', ''MAR''],
                   language = ''spanish'', transmitted = False, markedWords = Some []\<rparr>]\<rparr>)) = []
   \<and> bingoCards (transmitNextCard
      (initial\<lparr>socketRef := Some CONNECTING, isTransmitting := True,
                bingoCards := [\<lparr>card_id = ''c1'', words = [''SOL'', ''LUNA'', ''MAR''],
                   language = ''spanish'', transmitted = False, markedWords = Some []\<rparr>]\<rparr>))
      = [\<lparr>card_id = ''c1'', words = [''SOL'', ''LUNA'', ''MAR''],
                   language = ''spanish'', transmitted = True, markedWords = Some []\<rparr>]"
  using closed_socket_marks_transmitted
    [of "initial\<lparr>socketRef := Some CONNECTING, isTransmitting := True,
                bingoCards := [\<lparr>card_id = ''c1'', words = [''SOL'', ''LUNA'', ''MAR''],
                   language = ''spanish'', transmitted = False, markedWords = Some []\<rparr>]\<rparr>"
        "[]" "\<lparr>card_id = ''c1'', words = [''SOL'', ''LUNA'', ''MAR''],
                   language = ''spanish'', transmitted = False, markedWords = Some []\<rparr>" "[]"]
  by (simp add: initial_def)

text \<open>
  The same through the events: a file is loaded while the socket is connecting, the
  socket opens, the timer fires, a second file is loaded and its timers fire. The
  card of the first file is never sent, and both cards are marked as transmitted.
\<close>

lemma closed_socket_run:
  "sent (run [Socket (Some CONNECTING), FileChosen, FileLoaded 0 ''c1 SOL LUNA MAR'',
              Socket (Some OPEN), TimerFires, FileChosen, FileLoaded 0 ''c2 MAR'', TimerFires,
              TimerFires] initial)
     = [JObject [(''type'', JString ''bingo_card''),
                 (''card'', JObject [(''id'', JString ''c2''), (''words'', JArray [JString ''MAR'']),
                                     (''language'', JString ''spanish'')])]]
   \<and> map transmitted
        (bingoCards (run [Socket (Some CONNECTING), FileChosen, FileLoaded 0 ''c1 SOL LUNA MAR'',
              Socket (Some OPEN), TimerFires, FileChosen, FileLoaded 0 ''c2 MAR'', TimerFires,
              TimerFires] initial))
     = [True, True]
   \<and> timers (run [Socket (Some CONNECTING), FileChosen, FileLoaded 0 ''c1 SOL LUNA MAR'',
              Socket (Some OPEN), TimerFires, FileChosen, FileLoaded 0 ''c2 MAR'', TimerFires,
              TimerFires] initial) = []"
  by code_simp

section \<open>Properties of the selection\<close>

lemma forEachSelect_firstMax:
  "(maxMarked (forEachSelect lang cs i b), bestIndex (forEachSelect lang cs i b))
     = firstMax (\<lambda>c. True) cs i (maxMarked b) (bestIndex b)"
  "(maxMarkedForLanguage (forEachSelect lang cs i b), bestIndexForLanguage (forEachSelect lang cs i b))
     = firstMax (\<lambda>c. Some (language c) = lang) cs i (maxMarkedForLanguage b) (bestIndexForLanguage b)"
  by (induction cs arbitrary: i b; auto simp: selectStep_def Let_def)+

lemma firstMax_spec:
  "firstMax P cs i m b = (m', b') \<Longrightarrow>
     m \<le> m' \<and> (\<forall>c \<in> set cs. P c \<longrightarrow> markedCount c \<le> m')
     \<and> (if m' = m then b' = b
        else i \<le> b' \<and> b' < i + length cs \<and> P (cs ! (b' - i)) \<and> markedCount (cs ! (b' - i)) = m'
           \<and> (\<forall>j < b' - i. P (cs ! j) \<longrightarrow> markedCount (cs ! j) < m'))"
proof (induction cs arbitrary: i m b)
  case Nil
  then show ?case by simp
next
  case (Cons c cs)
  show ?case
  proof (cases "P c \<and> markedCount c > m")
    case True
    with Cons.prems have r: "firstMax P cs (Suc i) (markedCount c) i = (m', b')" by simp
    note ih = Cons.IH [OF r]
    from ih True have le: "m < m'" by simp
    show ?thesis
    proof (cases "m' = markedCount c")
      case eq: True
      with ih have "b' = i" by simp
      with eq ih True le show ?thesis by auto
    next
      case False
      with ih have g: "Suc i \<le> b'" "b' < Suc i + length cs" "P (cs ! (b' - Suc i))"
          "markedCount (cs ! (b' - Suc i)) = m'"
          "\<forall>j < b' - Suc i. P (cs ! j) \<longrightarrow> markedCount (cs ! j) < m'"
        by simp_all
      from g(1) have n: "b' - i = Suc (b' - Suc i)" by simp
      have lt: "markedCount c < m'" using ih False by simp
      have "\<forall>j < b' - i. P ((c # cs) ! j) \<longrightarrow> markedCount ((c # cs) ! j) < m'"
      proof (intro allI impI)
        fix j assume "j < b' - i" "P ((c # cs) ! j)"
        then show "markedCount ((c # cs) ! j) < m'"
          using g(5) lt n by (cases j) auto
      qed
      with g n ih le show ?thesis by auto
    qed
  next
    case False
    with Cons.prems have r: "firstMax P cs (Suc i) m b = (m', b')" by auto
    note ih = Cons.IH [OF r]
    show ?thesis
    proof (cases "m' = m")
      case True
      with ih False show ?thesis by auto
    next
      case ne: False
      with ih have g: "Suc i \<le> b'" "b' < Suc i + length cs" "P (cs ! (b' - Suc i))"
          "markedCount (cs ! (b' - Suc i)) = m'"
          "\<forall>j < b' - Suc i. P (cs ! j) \<longrightarrow> markedCount (cs ! j) < m'" "m < m'"
        by simp_all
      from g(1) have n: "b' - i = Suc (b' - Suc i)" by simp
      have "\<forall>j < b' - i. P ((c # cs) ! j) \<longrightarrow> markedCount ((c # cs) ! j) < m'"
      proof (intro allI impI)
        fix j assume "j < b' - i" "P ((c # cs) ! j)"
        then show "markedCount ((c # cs) ! j) < m'"
          using g(5,6) False n by (cases j) auto
      qed
      with g n ih ne False show ?thesis by auto
    qed
  qed
qed

lemma firstMax_lowestMax:
  assumes "firstMax P cs 0 0 0 = (m', b')" "\<exists>c \<in> set cs. P c \<and> markedCount c > 0"
  shows "m' > 0 \<and> lowestMax P cs b'"
proof -
  note s = firstMax_spec [OF assms(1)]
  from s assms(2) have pos: "m' > 0" by fastforce
  with s have g: "b' < length cs" "P (cs ! b')" "markedCount (cs ! b') = m'"
      "\<forall>j < b'. P (cs ! j) \<longrightarrow> markedCount (cs ! j) < m'"
      "\<forall>c \<in> set cs. P c \<longrightarrow> markedCount c \<le> m'"
    by simp_all
  from g(5) have "\<forall>j < length cs. P (cs ! j) \<longrightarrow> markedCount (cs ! j) \<le> m'" by simp
  with g pos show ?thesis by (simp add: lowestMax_def list_all_iff)
qed

lemma firstMax_none:
  assumes "firstMax P cs 0 0 0 = (m', b')" "\<not> (\<exists>c \<in> set cs. P c \<and> markedCount c > 0)"
  shows "m' = 0 \<and> b' = 0"
proof -
  note s = firstMax_spec [OF assms(1)]
  show ?thesis
  proof (cases "m' = 0")
    case True
    with s show ?thesis by simp
  next
    case False
    with s have "b' < length cs" "P (cs ! b')" "markedCount (cs ! b') = m'" by simp_all
    with False assms(2) show ?thesis by (metis gr0I nth_mem)
  qed
qed

lemma autoSelect_firstMax:
  "autoSelect lang cs =
     (if fst (firstMax (\<lambda>c. Some (language c) = lang) cs 0 0 0) > 0
      then snd (firstMax (\<lambda>c. Some (language c) = lang) cs 0 0 0)
      else snd (firstMax (\<lambda>c. True) cs 0 0 0))"
  using forEachSelect_firstMax [of lang cs 0
          "\<lparr>maxMarked = 0, bestIndex = 0, maxMarkedForLanguage = 0, bestIndexForLanguage = 0\<rparr>",
          symmetric]
  by (simp add: autoSelect_def Let_def)

lemma autoSelect_spec:
  "(if \<exists>c \<in> set cs. Some (language c) = lang \<and> markedCount c > 0
    then lowestMax (\<lambda>c. Some (language c) = lang) cs (autoSelect lang cs)
    else if cs \<noteq> [] then lowestMax (\<lambda>c. True) cs (autoSelect lang cs)
    else autoSelect lang cs = 0)"
proof -
  obtain ml bl where l: "firstMax (\<lambda>c. Some (language c) = lang) cs 0 0 0 = (ml, bl)"
    by (cases "firstMax (\<lambda>c. Some (language c) = lang) cs 0 0 0")
  obtain mo bo where o: "firstMax (\<lambda>c. True) cs 0 0 0 = (mo, bo)"
    by (cases "firstMax (\<lambda>c. True) cs 0 0 0")
  have a: "autoSelect lang cs = (if ml > 0 then bl else bo)"
    by (simp add: autoSelect_firstMax l o)
  show ?thesis
  proof (cases "\<exists>c \<in> set cs. Some (language c) = lang \<and> markedCount c > 0")
    case True
    with firstMax_lowestMax [OF l] a show ?thesis by simp
  next
    case False
    with firstMax_none [OF l] a have b: "autoSelect lang cs = bo" by simp
    show ?thesis
    proof (cases "\<exists>c \<in> set cs. markedCount c > 0")
      case True
      then have "lowestMax (\<lambda>c. True) cs bo" using firstMax_lowestMax [OF o] by simp
      with False b True show ?thesis by auto
    next
      case n: False
      then have z: "bo = 0" using firstMax_none [OF o] by simp
      from n have "\<forall>j < length cs. markedCount (cs ! j) = 0" by simp
      with z b False show ?thesis by (auto simp: lowestMax_def list_all_iff)
    qed
  qed
qed

text \<open>
  C2 on the code. The index that a \<open>word_selected\<close> message stores does not depend on
  \<open>currentLanguage\<close>, the language that \<open>round_start\<close> has stored: the loop compares the
  language of a card with the language field of the message. For a message without
  this field no card is preferred: the index is the lowest one of a card with the
  most marked words among all cards after the marking, and 0 for an empty store.
\<close>

theorem auto_select_ignores_round_language:
  "selectedCardIndex (handleWebSocketMessage (Word_selected word card_ids lang)
                        (st\<lparr>currentLanguage := l\<rparr>))
     = selectedCardIndex (handleWebSocketMessage (Word_selected word card_ids lang) st)
   \<and> selectedCardIndex (handleWebSocketMessage (Word_selected word card_ids None) st)
     = autoSelect None (bingoCards (handleWebSocketMessage (Word_selected word card_ids None) st))
   \<and> bingoCards (handleWebSocketMessage (Word_selected word card_ids None) st)
     = map (markCard word card_ids) (bingoCards st)
   \<and> (if cs \<noteq> [] then lowestMax (\<lambda>c. True) cs (autoSelect None cs) else autoSelect None cs = 0)"
  using autoSelect_spec [of cs None] by (simp add: Let_def)

text \<open>
  After \<open>round_start\<close> has set the language of the round to dutch, a \<open>word_selected\<close>
  message without a language field marks the word on both cards; the cards then
  have one marked word each and only the second is dutch, and the first is selected.
\<close>

theorem auto_select_ignores_round_language_witness:
  "currentLanguage (run [Socket (Some OPEN), FileChosen, FileLoaded 0 two_cards, TimerFires,
       TimerFires, Message (Round_start ''dutch'')] initial) = ''dutch''
   \<and> map language (bingoCards (run [Socket (Some OPEN), FileChosen, FileLoaded 0 two_cards,
       TimerFires, TimerFires, Message (Round_start ''dutch''),
       Message (Word_selected ''HOND'' (Some [''a'', ''b'']) None)] initial))
     = [''spanish'', ''dutch'']
   \<and> map markedCount (bingoCards (run [Socket (Some OPEN), FileChosen, FileLoaded 0 two_cards,
       TimerFires, TimerFires, Message (Round_start ''dutch''),
       Message (Word_selected ''HOND'' (Some [''a'', ''b'']) None)] initial)) = [1, 1]
   \<and> selectedCardIndex (run [Socket (Some OPEN), FileChosen, FileLoaded 0 two_cards,
       TimerFires, TimerFires, Message (Round_start ''dutch''),
       Message (Word_selected ''HOND'' (Some [''a'', ''b'']) None)] initial) = 0
   \<and> lowestMax (\<lambda>c. True)
       (bingoCards (run [Socket (Some OPEN), FileChosen, FileLoaded 0 two_cards,
          TimerFires, TimerFires, Message (Round_start ''dutch''),
          Message (Word_selected ''HOND'' (Some [''a'', ''b'']) None)] initial)) 0"
proof -
  let ?pre = "[Socket (Some OPEN), FileChosen, FileLoaded 0 two_cards, TimerFires, TimerFires,
       Message (Round_start ''dutch'')]"
  let ?es = "[Socket (Some OPEN), FileChosen, FileLoaded 0 two_cards, TimerFires, TimerFires,
       Message (Round_start ''dutch''),
       Message (Word_selected ''HOND'' (Some [''a'', ''b'']) None)]"
  let ?cs = "bingoCards (run ?es initial)"
  have r: "currentLanguage (run ?pre initial) = ''dutch''" by code_simp
  have l: "map language ?cs = [''spanish'', ''dutch'']" by code_simp
  have m: "map markedCount ?cs = [1, 1]" by code_simp
  have k: "selectedCardIndex (run ?es initial) = 0" by code_simp
  have a: "autoSelect None ?cs = 0" by code_simp
  have n: "?cs \<noteq> []" using l by (auto simp del: run.simps)
  from auto_select_ignores_round_language
         [where word = "''HOND''" and card_ids = "Some [''a'', ''b'']" and lang = None
            and st = initial and l = "''dutch''" and cs = ?cs]
    n a
  have "lowestMax (\<lambda>c. True) ?cs 0" by (simp del: run.simps)
  with r l m k show ?thesis by (simp del: run.simps)
qed

end
